theory Spec2Isabelle
  imports Main "HOL-Library.AList"
begin

section \<open>Data model\<close>

text \<open>
  A LangChain \<open>Document\<close>: the text of a page or of a chunk, and its metadata
  dictionary. The dictionary is an association list; the values the code reads
  (\<open>source\<close>, \<open>author\<close>) are strings.
\<close>

record document =
  page_content :: string
  metadata :: "(string \<times> string) list"

text \<open>A row of the table \<open>uploaded_documents\<close> (the document registry).\<close>

record reg_row =
  row_id :: nat
  row_name :: string
  row_author :: string

text \<open>
  The exceptions of the model: the vector store's \<open>add_documents\<close> failing (embedding
  or insert), and a missing key of \<open>st.secrets\<close>.
\<close>

datatype error = StoreWriteFailure | KeyError string

text \<open>What a procedure did: it returned, or an exception left it.\<close>

datatype outcome = Returned | Raised error

text \<open>
  Everything observable that the ingestion and management code does, in the order
  it does it: the writes to the two tables, and the messages shown or logged.
  Each message constructor stands for one message of the source and carries the
  values formatted into it.
\<close>

datatype event =
    Registry_insert string string
  | Store_add "document list"
  | Store_delete_where string
  | Registry_delete nat
  | St_warning_skipping_duplicate string
  | St_info_processing string
  | St_warning_no_text string
  | St_info_ingested nat string
  | St_success_processed string
  | St_all_processed
  | St_error_setup error
  | St_info_deleting_chunks string
  | St_info_deleting_record string
  | St_success_deleted
  | Log_skipping_duplicate string
  | Log_ingested_batch nat nat
  | Log_failed_batch nat error
  | Print_loaded nat nat

text \<open>
  The Supabase database: the registry table \<open>uploaded_documents\<close> with the
  counter of its identity column, the chunk table \<open>documents\<close> of the vector
  store, and the trace of events.
\<close>

record db =
  tbl_uploaded_documents :: "reg_row list"
  next_id :: nat
  tbl_documents :: "document list"
  log :: "event list"

definition emit :: "event \<Rightarrow> db \<Rightarrow> db" where
  "emit e st = st\<lparr>log := log st @ [e]\<rparr>"

section \<open>Database and library operations\<close>

text \<open>
  The calls to Supabase and LangChain are modelled by what they do to the two
  tables. The store write \<open>add_documents\<close> is the call that can raise here: it is
  the one the script guards with \<open>try\<close>, and its failure is atomic (nothing of the
  batch is stored). Registry queries and deletes succeed. Out of the model: the
  temporary file of the uploader, \<open>time.sleep\<close> between batches, and the column
  \<open>created_at\<close>.
\<close>

text \<open>\<open>metadata.get(key, default)\<close>.\<close>

definition metadata_get :: "(string \<times> string) list \<Rightarrow> string \<Rightarrow> string \<Rightarrow> string" where
  "metadata_get md k dflt = (case map_of md k of None \<Rightarrow> dflt | Some v \<Rightarrow> v)"

text \<open>\<open>os.path.basename\<close> (POSIX): what follows the last slash.\<close>

definition basename :: "string \<Rightarrow> string" where
  "basename p = rev (takeWhile (\<lambda>c. c \<noteq> CHR ''/'') (rev p))"

text \<open>\<open>table("uploaded_documents").select("name").eq("name", file_name)\<close>.\<close>

definition select_name_eq :: "string \<Rightarrow> db \<Rightarrow> reg_row list" where
  "select_name_eq file_name st =
     filter (\<lambda>r. row_name r = file_name) (tbl_uploaded_documents st)"

text \<open>\<open>table("uploaded_documents").insert({"name": ..., "author": ...})\<close>.\<close>

definition insert_uploaded_document :: "string \<Rightarrow> string \<Rightarrow> db \<Rightarrow> db" where
  "insert_uploaded_document file_name author st =
     st\<lparr>tbl_uploaded_documents := tbl_uploaded_documents st @
           [\<lparr>row_id = next_id st, row_name = file_name, row_author = author\<rparr>],
        next_id := Suc (next_id st),
        log := log st @ [Registry_insert file_name author]\<rparr>"

text \<open>
  \<open>vector_store.add_documents(batch)\<close>: embeds and inserts the batch, or raises. The
  parameter \<open>fails\<close> says for which batches the call raises.
\<close>

definition add_documents :: "(document list \<Rightarrow> bool) \<Rightarrow> document list \<Rightarrow> db \<Rightarrow> error + db" where
  "add_documents fails batch st =
     (if fails batch then Inl StoreWriteFailure
      else Inr (st\<lparr>tbl_documents := tbl_documents st @ batch,
                   log := log st @ [Store_add batch]\<rparr>))"

text \<open>
  \<open>text_splitter.split_documents(documents)\<close>: every document's text is split by
  \<open>split_text\<close> (the library's splitter, a parameter here), and every span becomes a
  chunk that carries a copy of its document's metadata.
\<close>

definition split_documents :: "(string \<Rightarrow> string list) \<Rightarrow> document list \<Rightarrow> document list" where
  "split_documents split_text documents =
     concat (map (\<lambda>doc. map (\<lambda>t. \<lparr>page_content = t, metadata = metadata doc\<rparr>)
                               (split_text (page_content doc))) documents)"

text \<open>The filter \<open>metadata->>source = file_name\<close> on the chunk table.\<close>

definition source_is :: "string \<Rightarrow> document \<Rightarrow> bool" where
  "source_is file_name c = (map_of (metadata c) ''source'' = Some file_name)"

definition chunk_count :: "string \<Rightarrow> db \<Rightarrow> nat" where
  "chunk_count file_name st = length (filter (source_is file_name) (tbl_documents st))"

definition delete_chunks_where_source :: "string \<Rightarrow> db \<Rightarrow> db" where
  "delete_chunks_where_source file_name st =
     st\<lparr>tbl_documents := filter (\<lambda>c. \<not> source_is file_name c) (tbl_documents st),
        log := log st @ [Store_delete_where file_name]\<rparr>"

definition delete_uploaded_document :: "nat \<Rightarrow> db \<Rightarrow> db" where
  "delete_uploaded_document i st =
     st\<lparr>tbl_uploaded_documents := filter (\<lambda>r. row_id r \<noteq> i) (tbl_uploaded_documents st),
        log := log st @ [Registry_delete i]\<rparr>"

section \<open>The uploader page (\<open>pages/4_Document_Uploader.py\<close>)\<close>

text \<open>
  An uploaded file: its name, and the pages \<open>PyPDFLoader\<close> reads from the temporary
  copy (their \<open>source\<close> is the temporary path).
\<close>

record uploaded_file =
  up_name :: string
  up_pages :: "document list"

definition process_and_ingest_pdf ::
  "(string \<Rightarrow> string list) \<Rightarrow> (document list \<Rightarrow> bool) \<Rightarrow> uploaded_file \<Rightarrow> db \<Rightarrow> outcome \<times> db" where
  "process_and_ingest_pdf split_text fails file_uploader_object st =
     (let file_name = up_name file_uploader_object in
      if select_name_eq file_name st \<noteq> [] then
        (Returned, emit (St_warning_skipping_duplicate file_name) st)
      else
        let st1 = emit (St_info_processing file_name) st;
            documents = map (\<lambda>doc. doc\<lparr>metadata := AList.update ''source'' file_name (metadata doc)\<rparr>)
                            (up_pages file_uploader_object);
            author = (case documents of
                        [] \<Rightarrow> ''Unknown''
                      | d # _ \<Rightarrow> metadata_get (metadata d) ''author'' ''Unknown'');
            docs = split_documents split_text documents
        in if docs = [] then
             (Returned, emit (St_warning_no_text file_name) st1)
           else
             (case add_documents fails docs st1 of
                Inl e \<Rightarrow> (Raised e, st1)
              | Inr st2 \<Rightarrow>
                  (Returned,
                   emit (St_success_processed file_name)
                     (insert_uploaded_document file_name author
                        (emit (St_info_ingested (length docs) file_name) st2)))))"

text \<open>The loop over the uploaded files: an exception leaves the loop.\<close>

fun upload_loop ::
  "(string \<Rightarrow> string list) \<Rightarrow> (document list \<Rightarrow> bool) \<Rightarrow> uploaded_file list \<Rightarrow> db \<Rightarrow> outcome \<times> db" where
  "upload_loop split_text fails [] st = (Returned, st)"
| "upload_loop split_text fails (file # rest) st =
     (case process_and_ingest_pdf split_text fails file st of
        (Raised e, st') \<Rightarrow> (Raised e, st')
      | (Returned, st') \<Rightarrow> upload_loop split_text fails rest st')"

text \<open>The page once the button is pressed: the loop inside the page's \<open>try\<close>.\<close>

definition upload_page ::
  "(string \<Rightarrow> string list) \<Rightarrow> (document list \<Rightarrow> bool) \<Rightarrow> uploaded_file list \<Rightarrow> db \<Rightarrow> db" where
  "upload_page split_text fails uploaded_files st =
     (if uploaded_files = [] then st
      else case upload_loop split_text fails uploaded_files st of
             (Raised e, st') \<Rightarrow> emit (St_error_setup e) st'
           | (Returned, st') \<Rightarrow> emit St_all_processed st')"

text \<open>
  Two parts of \<open>process_and_ingest_pdf\<close> by name, for the statements below: the loaded
  pages after the loop that overrides \<open>source\<close>, and the author taken from the first.
\<close>

definition relinked_pages :: "uploaded_file \<Rightarrow> document list" where
  "relinked_pages file =
     map (\<lambda>doc. doc\<lparr>metadata := AList.update ''source'' (up_name file) (metadata doc)\<rparr>)
         (up_pages file)"

definition upload_author :: "uploaded_file \<Rightarrow> string" where
  "upload_author file =
     (case relinked_pages file of
        [] \<Rightarrow> ''Unknown''
      | d # _ \<Rightarrow> metadata_get (metadata d) ''author'' ''Unknown'')"

section \<open>The directory-scan script (\<open>ingest_in_db_excl_dupes.py\<close>)\<close>

definition file_name_of :: "document \<Rightarrow> string" where
  "file_name_of doc = basename (metadata_get (metadata doc) ''source'' ''unknown.pdf'')"

text \<open>
  The loop over the loaded documents (one per page of each PDF), with the state
  and \<open>processed_docs\<close> as accumulator.
\<close>

fun dedup_loop :: "document list \<Rightarrow> db \<times> document list \<Rightarrow> db \<times> document list" where
  "dedup_loop [] acc = acc"
| "dedup_loop (doc # rest) (st, processed_docs) =
     (let file_name = file_name_of doc;
          author = metadata_get (metadata doc) ''author'' ''Unknown''
      in if select_name_eq file_name st \<noteq> [] then
           dedup_loop rest (emit (Log_skipping_duplicate file_name) st, processed_docs)
         else
           dedup_loop rest (insert_uploaded_document file_name author st, processed_docs @ [doc]))"

definition BATCH_SIZE :: nat where
  "BATCH_SIZE = 100"

text \<open>\<open>range(0, n, BATCH_SIZE)\<close>.\<close>

definition batch_starts :: "nat \<Rightarrow> nat list" where
  "batch_starts n = map (\<lambda>k. k * BATCH_SIZE) [0 ..< (n + BATCH_SIZE - 1) div BATCH_SIZE]"

text \<open>One turn of the batch loop: the \<open>try\<close> around \<open>add_documents\<close>.\<close>

definition ingest_batch :: "(document list \<Rightarrow> bool) \<Rightarrow> document list \<Rightarrow> nat \<Rightarrow> db \<Rightarrow> db" where
  "ingest_batch fails docs i st =
     (let batch = take BATCH_SIZE (drop i docs) in
      case add_documents fails batch st of
        Inr st' \<Rightarrow> emit (Log_ingested_batch (i div BATCH_SIZE + 1) (length batch)) st'
      | Inl e \<Rightarrow> emit (Log_failed_batch (i div BATCH_SIZE + 1) e) st)"

definition ingest_batches :: "(document list \<Rightarrow> bool) \<Rightarrow> document list \<Rightarrow> db \<Rightarrow> db" where
  "ingest_batches fails docs st = fold (ingest_batch fails docs) (batch_starts (length docs)) st"

text \<open>
  The batches the loop forms, \<open>docs[i:i + BATCH_SIZE]\<close> for every start \<open>i\<close>, and what
  one turn of the loop writes to the trace.
\<close>

definition batches :: "document list \<Rightarrow> document list list" where
  "batches docs = map (\<lambda>i. take BATCH_SIZE (drop i docs)) (batch_starts (length docs))"

definition batch_events :: "(document list \<Rightarrow> bool) \<Rightarrow> document list \<Rightarrow> nat \<Rightarrow> event list" where
  "batch_events fails docs i =
     (let batch = take BATCH_SIZE (drop i docs) in
      if fails batch then [Log_failed_batch (i div BATCH_SIZE + 1) StoreWriteFailure]
      else [Store_add batch, Log_ingested_batch (i div BATCH_SIZE + 1) (length batch)])"

definition run_script ::
  "(string \<Rightarrow> string list) \<Rightarrow> (document list \<Rightarrow> bool) \<Rightarrow> document list \<Rightarrow> db \<Rightarrow> db" where
  "run_script split_text fails documents st =
     (case dedup_loop documents (st, []) of
        (st1, processed_docs) \<Rightarrow>
          let docs = split_documents split_text processed_docs
          in emit (Print_loaded (length docs) (length processed_docs))
               (ingest_batches fails docs st1))"

section \<open>The management page (\<open>pages/2_Documents.py\<close>): deleting the selected rows\<close>

fun delete_selected_loop :: "reg_row list \<Rightarrow> db \<Rightarrow> db" where
  "delete_selected_loop [] st = st"
| "delete_selected_loop (row # rest) st =
     (let file_name_to_delete = row_name row;
          st1 = emit (St_info_deleting_chunks file_name_to_delete) st;
          st2 = delete_chunks_where_source file_name_to_delete st1;
          st3 = emit (St_info_deleting_record file_name_to_delete) st2;
          st4 = delete_uploaded_document (row_id row) st3
      in delete_selected_loop rest st4)"

definition delete_selected_rows :: "reg_row list \<Rightarrow> db \<Rightarrow> db" where
  "delete_selected_rows selected_rows st =
     (if selected_rows = [] then st
      else emit St_success_deleted (delete_selected_loop selected_rows st))"

text \<open>What the loop writes to the trace for one selected row.\<close>

definition delete_events :: "reg_row \<Rightarrow> event list" where
  "delete_events row =
     [St_info_deleting_chunks (row_name row), Store_delete_where (row_name row),
      St_info_deleting_record (row_name row), Registry_delete (row_id row)]"

section \<open>The chat page (\<open>1_Raymondo.py\<close>)\<close>

text \<open>
  The calls that leave the process: building the engine of the structured store,
  and the two agents' invocations.
\<close>

datatype ext_call =
    Create_engine string
  | Doc_executor_invoke string
  | Sql_executor_invoke string

datatype doc_agent = Doc_agent

text \<open>The SQL agent: the URI of its database and the tables it was given.\<close>

datatype sql_agent = Sql_agent string "string list"

definition secret :: "(string \<times> string) list \<Rightarrow> string \<Rightarrow> error + string" where
  "secret secrets k = (case map_of secrets k of None \<Rightarrow> Inl (KeyError k) | Some v \<Rightarrow> Inr v)"

definition db_secret_keys :: "string list" where
  "db_secret_keys = [''DB_USER'', ''DB_PASSWORD'', ''DB_HOST'', ''DB_NAME'']"

definition db_uri_of :: "(string \<times> string) list \<Rightarrow> string" where
  "db_uri_of secrets =
     ''postgresql://'' @ metadata_get secrets ''DB_USER'' [] @ '':'' @
     metadata_get secrets ''DB_PASSWORD'' [] @ ''@'' @
     metadata_get secrets ''DB_HOST'' [] @ '':5432/'' @
     metadata_get secrets ''DB_NAME'' []"

text \<open>
  \<open>initialize_system\<close>: the document agent needs the two Supabase secrets (a missing
  one raises); the SQL agent is built only when the four database secrets are all
  present, and stays \<open>None\<close> when building it raises (\<open>connects uri\<close> is false).
\<close>

definition initialize_system ::
  "(string \<Rightarrow> bool) \<Rightarrow> (string \<times> string) list \<Rightarrow>
     error + (doc_agent option \<times> sql_agent option \<times> ext_call list)" where
  "initialize_system connects secrets =
     (case secret secrets ''SUPABASE_URL'' of
        Inl e \<Rightarrow> Inl e
      | Inr _ \<Rightarrow>
     (case secret secrets ''SUPABASE_SERVICE_KEY'' of
        Inl e \<Rightarrow> Inl e
      | Inr _ \<Rightarrow>
        if list_all (\<lambda>k. map_of secrets k \<noteq> None) db_secret_keys then
          let db_uri = db_uri_of secrets in
          if connects db_uri then
            Inr (Some Doc_agent, Some (Sql_agent db_uri [''completions'']), [Create_engine db_uri])
          else Inr (Some Doc_agent, None, [Create_engine db_uri])
        else Inr (Some Doc_agent, None, [])))"

definition radio_options :: "sql_agent option \<Rightarrow> string list" where
  "radio_options sql_executor =
     (if sql_executor \<noteq> None
      then [''Internal Documents (PDFs)'', ''Case Data (Completions)'']
      else [''Internal Documents (PDFs)''])"

text \<open>
  One turn of the chat: the external calls it makes and the messages appended to
  the transcript. The agents' answers are the parameters \<open>doc_answer\<close> and
  \<open>sql_answer\<close>.
\<close>

datatype role = User | Assistant

definition chat_turn ::
  "(string \<Rightarrow> string) \<Rightarrow> (string \<Rightarrow> string) \<Rightarrow> doc_agent option \<Rightarrow> sql_agent option \<Rightarrow>
     string \<Rightarrow> string \<Rightarrow> ext_call list \<times> (role \<times> string) list" where
  "chat_turn doc_answer sql_answer doc_executor sql_executor data_source user_input =
     (if user_input = [] then ([], [])
      else
        let (calls, ai_response) =
          (if data_source = ''Internal Documents (PDFs)'' then
             (if doc_executor = None then ([], [])
              else ([Doc_executor_invoke user_input], doc_answer user_input))
           else if data_source = ''Case Data (Completions)'' then
             (if sql_executor = None then ([], [])
              else
                let prompted_input =
                  ''Based on the 'completions' table, answer the user's question: '' @ user_input
                in ([Sql_executor_invoke prompted_input], sql_answer prompted_input))
           else ([], []))
        in (calls, (User, user_input) # (if ai_response \<noteq> [] then [(Assistant, ai_response)] else [])))"

section \<open>Example inputs\<close>

text \<open>
  A splitter for the examples: a text that fits one chunk is one span, and an empty
  text (a scanned page without a text layer) gives no span.
\<close>

definition one_span_splitter :: "string \<Rightarrow> string list" where
  "one_span_splitter t = (if t = [] then [] else [t])"

definition never_fails :: "document list \<Rightarrow> bool" where
  "never_fails batch = False"

definition always_fails :: "document list \<Rightarrow> bool" where
  "always_fails batch = True"

definition empty_db :: db where
  "empty_db = \<lparr>tbl_uploaded_documents = [], next_id = 1, tbl_documents = [], log = []\<rparr>"

text \<open>The pages of \<open>documents/guide.pdf\<close> as the directory loader yields them.\<close>

definition guide_page1 :: document where
  "guide_page1 = \<lparr>page_content = ''Welcome to the guide.'',
                  metadata = [(''source'', ''documents/guide.pdf''), (''page'', ''0'')]\<rparr>"

definition guide_page2 :: document where
  "guide_page2 = \<lparr>page_content = ''Second page.'',
                  metadata = [(''source'', ''documents/guide.pdf''), (''page'', ''1'')]\<rparr>"

text \<open>A page without text, as a scanned PDF gives.\<close>

definition scan_page :: document where
  "scan_page = \<lparr>page_content = [],
                 metadata = [(''source'', ''documents/scan.pdf''), (''page'', ''0'')]\<rparr>"

text \<open>The same guide uploaded through the page: the loader reads the temporary copy.\<close>

definition guide_upload :: uploaded_file where
  "guide_upload = \<lparr>up_name = ''guide.pdf'',
                    up_pages = [\<lparr>page_content = ''Welcome to the guide.'',
                                 metadata = [(''source'', ''/tmp/tmpk3v9.pdf''), (''page'', ''0'')]\<rparr>]\<rparr>"

definition notes_upload :: uploaded_file where
  "notes_upload = \<lparr>up_name = ''notes.pdf'',
                    up_pages = [\<lparr>page_content = ''Notes.'',
                                 metadata = [(''source'', ''/tmp/tmpq7x2.pdf''), (''page'', ''0'')]\<rparr>]\<rparr>"

text \<open>A database in which \<open>guide.pdf\<close> has been ingested: one registry row, one chunk.\<close>

definition guide_db :: db where
  "guide_db =
     \<lparr>tbl_uploaded_documents = [\<lparr>row_id = 1, row_name = ''guide.pdf'', row_author = ''Unknown''\<rparr>],
      next_id = 2,
      tbl_documents = [\<lparr>page_content = ''Welcome to the guide.'',
                        metadata = [(''source'', ''guide.pdf''), (''page'', ''0'')]\<rparr>],
      log = []\<rparr>"

text \<open>A vector store that rejects the chunks of \<open>guide.pdf\<close>, and one that rejects full batches.\<close>

definition fails_guide :: "document list \<Rightarrow> bool" where
  "fails_guide batch = list_ex (source_is ''guide.pdf'') batch"

definition fails_full_batch :: "document list \<Rightarrow> bool" where
  "fails_full_batch batch = (length batch = BATCH_SIZE)"

text \<open>A hundred and one chunks: a full batch and a batch of one.\<close>

definition two_batches :: "document list" where
  "two_batches = replicate 100 guide_page1 @ [guide_page2]"

text \<open>Secrets with \<open>DB_PASSWORD\<close> and \<open>DB_NAME\<close> missing.\<close>

definition partial_secrets :: "(string \<times> string) list" where
  "partial_secrets =
     [(''SUPABASE_URL'', ''https://project.supabase.co''), (''SUPABASE_SERVICE_KEY'', ''key''),
      (''OPENAI_API_KEY'', ''sk''), (''DB_USER'', ''postgres''), (''DB_HOST'', ''db.example.org'')]"

lemmas example_defs =
  one_span_splitter_def never_fails_def always_fails_def fails_guide_def empty_db_def
  guide_page1_def guide_page2_def scan_page_def guide_upload_def notes_upload_def guide_db_def

lemmas script_defs =
  run_script_def file_name_of_def metadata_get_def basename_def select_name_eq_def
  insert_uploaded_document_def emit_def split_documents_def ingest_batches_def
  ingest_batch_def batch_starts_def BATCH_SIZE_def add_documents_def Let_def

lemmas uploader_defs =
  upload_page_def process_and_ingest_pdf_def metadata_get_def select_name_eq_def
  insert_uploaded_document_def emit_def split_documents_def add_documents_def Let_def
  source_is_def

section \<open>Basic facts about the operations\<close>

lemma select_name_eq_emit [simp]: "select_name_eq n (emit e st) = select_name_eq n st"
  by (simp add: select_name_eq_def emit_def)

lemma emit_simps [simp]:
  "tbl_uploaded_documents (emit e st) = tbl_uploaded_documents st"
  "tbl_documents (emit e st) = tbl_documents st"
  "next_id (emit e st) = next_id st"
  "log (emit e st) = log st @ [e]"
  by (simp_all add: emit_def)

lemma insert_uploaded_document_simps [simp]:
  "tbl_uploaded_documents (insert_uploaded_document n a st) =
     tbl_uploaded_documents st @ [\<lparr>row_id = next_id st, row_name = n, row_author = a\<rparr>]"
  "tbl_documents (insert_uploaded_document n a st) = tbl_documents st"
  "next_id (insert_uploaded_document n a st) = Suc (next_id st)"
  "log (insert_uploaded_document n a st) = log st @ [Registry_insert n a]"
  by (simp_all add: insert_uploaded_document_def)

lemma select_name_eq_insert:
  "select_name_eq m (insert_uploaded_document n a st) =
     select_name_eq m st @
       (if n = m then [\<lparr>row_id = next_id st, row_name = n, row_author = a\<rparr>] else [])"
  by (simp add: select_name_eq_def)

lemma select_name_eq_empty_iff:
  "select_name_eq n st = [] \<longleftrightarrow> n \<notin> set (map row_name (tbl_uploaded_documents st))"
  by (auto simp: select_name_eq_def filter_empty_conv)

text \<open>With one row per name at most, a registered name has exactly one row.\<close>

lemma distinct_names_select_length:
  assumes "distinct (map row_name (tbl_uploaded_documents st))" "select_name_eq n st \<noteq> []"
  shows "length (select_name_eq n st) = 1"
proof -
  have "length (filter (\<lambda>r. row_name r = n) rows) \<le> 1"
    if "distinct (map row_name rows)" for rows :: "reg_row list"
    using that by (induction rows) (auto simp: filter_empty_conv image_iff)
  then have "length (select_name_eq n st) \<le> 1"
    using assms(1) by (simp add: select_name_eq_def)
  moreover have "length (select_name_eq n st) \<noteq> 0"
    using assms(2) by simp
  ultimately show ?thesis by linarith
qed

lemma split_documents_Nil [simp]: "split_documents f [] = []"
  by (simp add: split_documents_def)

lemma ingest_batches_Nil [simp]: "ingest_batches fails [] st = st"
  by (simp add: ingest_batches_def batch_starts_def BATCH_SIZE_def)

section \<open>Idempotent ingestion\<close>

lemma dedup_loop_all_registered:
  assumes "select_name_eq n st \<noteq> []" "\<forall>doc \<in> set documents. file_name_of doc = n"
  shows "dedup_loop documents (st, acc) =
           (st\<lparr>log := log st @ map (\<lambda>_. Log_skipping_duplicate n) documents\<rparr>, acc)"
  using assms
proof (induction documents arbitrary: st)
  case Nil
  then show ?case by simp
next
  case (Cons doc rest)
  let ?st = "emit (Log_skipping_duplicate n) st"
  have "dedup_loop (doc # rest) (st, acc) = dedup_loop rest (?st, acc)"
    using Cons.prems by (simp add: Let_def)
  also have "\<dots> = (?st\<lparr>log := log ?st @ map (\<lambda>_. Log_skipping_duplicate n) rest\<rparr>, acc)"
    using Cons.prems by (intro Cons.IH) simp_all
  finally show ?case by (simp add: emit_def)
qed

lemma run_script_all_registered:
  assumes "select_name_eq n st \<noteq> []" "\<forall>doc \<in> set documents. file_name_of doc = n"
  shows "run_script split_text fails documents st =
           st\<lparr>log := log st @ map (\<lambda>_. Log_skipping_duplicate n) documents @ [Print_loaded 0 0]\<rparr>"
  using dedup_loop_all_registered[OF assms, of "[]"]
  by (simp add: run_script_def emit_def)

text \<open>
  Claim C1. A file whose name is already in the registry (one row per name) is
  ingested again. The uploader returns after the skip warning and the script
  skips every page of the file: in both the registry keeps exactly one row for the
  name, the chunk table is unchanged, and nothing but the skip messages (and the
  script's final count of zero) is added to the trace.
\<close>

theorem duplicate_ingestion_is_skipped:
  assumes "distinct (map row_name (tbl_uploaded_documents st))"
      and "select_name_eq file_name st \<noteq> []"
      and "up_name file = file_name"
      and "\<forall>doc \<in> set documents. file_name_of doc = file_name"
  shows "process_and_ingest_pdf split_text fails file st =
           (Returned, emit (St_warning_skipping_duplicate file_name) st)
       \<and> length (select_name_eq file_name (snd (process_and_ingest_pdf split_text fails file st))) = 1
       \<and> tbl_documents (snd (process_and_ingest_pdf split_text fails file st)) = tbl_documents st
       \<and> run_script split_text fails documents st =
           st\<lparr>log := log st @ map (\<lambda>_. Log_skipping_duplicate file_name) documents
                                @ [Print_loaded 0 0]\<rparr>
       \<and> length (select_name_eq file_name (run_script split_text fails documents st)) = 1
       \<and> tbl_documents (run_script split_text fails documents st) = tbl_documents st"
proof -
  have p: "process_and_ingest_pdf split_text fails file st =
           (Returned, emit (St_warning_skipping_duplicate file_name) st)"
    using assms(2,3) by (simp add: process_and_ingest_pdf_def)
  have one: "length (select_name_eq file_name st) = 1"
    using assms(1,2) by (rule distinct_names_select_length)
  have r: "run_script split_text fails documents st =
           st\<lparr>log := log st @ map (\<lambda>_. Log_skipping_duplicate file_name) documents
                                @ [Print_loaded 0 0]\<rparr>"
    using assms(2,4) by (rule run_script_all_registered)
  show ?thesis
    using one by (simp add: p r select_name_eq_def)
qed

theorem duplicate_ingestion_is_skipped_witness:
  "distinct (map row_name (tbl_uploaded_documents guide_db))
   \<and> select_name_eq ''guide.pdf'' guide_db \<noteq> []
   \<and> up_name guide_upload = ''guide.pdf''
   \<and> file_name_of guide_page1 = ''guide.pdf'' \<and> file_name_of guide_page2 = ''guide.pdf''
   \<and> process_and_ingest_pdf one_span_splitter never_fails guide_upload guide_db =
       (Returned, emit (St_warning_skipping_duplicate ''guide.pdf'') guide_db)
   \<and> length (select_name_eq ''guide.pdf''
        (run_script one_span_splitter never_fails [guide_page1, guide_page2] guide_db)) = 1
   \<and> tbl_documents (run_script one_span_splitter never_fails [guide_page1, guide_page2] guide_db) =
       tbl_documents guide_db"
proof -
  have h1: "distinct (map row_name (tbl_uploaded_documents guide_db))"
    by (simp add: guide_db_def)
  have h2: "select_name_eq ''guide.pdf'' guide_db \<noteq> []"
    by (simp add: guide_db_def select_name_eq_def)
  have h3: "up_name guide_upload = ''guide.pdf''"
    by (simp add: guide_upload_def)
  have h4: "\<forall>doc \<in> set [guide_page1, guide_page2]. file_name_of doc = ''guide.pdf''"
    by (simp add: guide_page1_def guide_page2_def file_name_of_def metadata_get_def basename_def)
  have h4': "file_name_of guide_page1 = ''guide.pdf'' \<and> file_name_of guide_page2 = ''guide.pdf''"
    using h4 by simp
  show ?thesis
    using duplicate_ingestion_is_skipped[OF h1 h2 h3 h4, of one_span_splitter never_fails] h1 h2 h3 h4'
    by blast
qed

section \<open>The batch loop of the script\<close>

lemma ingest_batch_eq:
  "ingest_batch fails docs i st =
     st\<lparr>tbl_documents := tbl_documents st @
           (if fails (take BATCH_SIZE (drop i docs)) then [] else take BATCH_SIZE (drop i docs)),
        log := log st @ batch_events fails docs i\<rparr>"
  by (simp add: ingest_batch_def add_documents_def batch_events_def emit_def Let_def)

lemma fold_ingest_batch:
  "fold (ingest_batch fails docs) is st =
     st\<lparr>tbl_documents := tbl_documents st @
           concat (filter (\<lambda>b. \<not> fails b) (map (\<lambda>i. take BATCH_SIZE (drop i docs)) is)),
        log := log st @ concat (map (batch_events fails docs) is)\<rparr>"
proof (induction "is" arbitrary: st)
  case Nil
  then show ?case by simp
next
  case (Cons i "is")
  show ?case
    by (simp add: Cons.IH) (simp add: ingest_batch_eq)
qed

lemma ingest_batches_eq:
  "ingest_batches fails docs st =
     st\<lparr>tbl_documents := tbl_documents st @ concat (filter (\<lambda>b. \<not> fails b) (batches docs)),
        log := log st @ concat (map (batch_events fails docs) (batch_starts (length docs)))\<rparr>"
  by (simp add: ingest_batches_def fold_ingest_batch batches_def)

lemma concat_batches_upto:
  "concat (map (\<lambda>k. take b (drop (k * b) xs)) [0 ..< m]) = take (m * b) xs"
proof (induction m)
  case 0
  then show ?case by simp
next
  case (Suc m)
  have "take (m * b) xs @ take b (drop (m * b) xs) = take (m * b + b) xs"
    by (simp add: take_add)
  with Suc show ?case by (simp add: add.commute)
qed

text \<open>The batches partition the chunks: none is left out.\<close>

lemma concat_batches: "concat (batches docs) = docs"
proof -
  have "length docs \<le> ((length docs + BATCH_SIZE - 1) div BATCH_SIZE) * BATCH_SIZE"
    by (simp add: BATCH_SIZE_def)
  then show ?thesis
    by (simp add: batches_def batch_starts_def map_map comp_def concat_batches_upto)
qed

text \<open>
  Claim C7, as amended. In the script's batch loop a failing \<open>add_documents\<close> is caught:
  it leaves a warning in the log and the loop goes on. Whatever batches fail, every
  batch of the chunk list is attempted in order (one log entry or pair per batch
  start), the batches cover the whole chunk list, and the chunk table receives
  exactly the batches that did not fail.
\<close>

theorem batch_failures_are_contained:
  "ingest_batches fails docs st =
     st\<lparr>tbl_documents := tbl_documents st @ concat (filter (\<lambda>b. \<not> fails b) (batches docs)),
        log := log st @ concat (map (batch_events fails docs) (batch_starts (length docs)))\<rparr>
   \<and> concat (batches docs) = docs
   \<and> length (batches docs) = length (batch_starts (length docs))"
  by (simp add: ingest_batches_eq concat_batches) (simp add: batches_def)

theorem batch_failures_are_contained_witness:
  "tbl_documents (ingest_batches fails_full_batch two_batches empty_db) = [guide_page2]
   \<and> log (ingest_batches fails_full_batch two_batches empty_db) =
       [Log_failed_batch 1 StoreWriteFailure, Store_add [guide_page2], Log_ingested_batch 2 1]"
proof -
  have s: "batch_starts (length two_batches) = [0, 100]"
    by (simp add: two_batches_def batch_starts_def BATCH_SIZE_def upt_rec)
  have b: "batches two_batches = [replicate 100 guide_page1, [guide_page2]]"
    by (simp add: batches_def s) (simp add: two_batches_def BATCH_SIZE_def)
  have e: "batch_events fails_full_batch two_batches 0 @ batch_events fails_full_batch two_batches 100 =
       [Log_failed_batch 1 StoreWriteFailure, Store_add [guide_page2], Log_ingested_batch 2 1]"
    by (simp add: batch_events_def fails_full_batch_def two_batches_def BATCH_SIZE_def)
  have f: "concat (filter (\<lambda>b. \<not> fails_full_batch b) (batches two_batches)) = [guide_page2]"
    by (simp add: b fails_full_batch_def BATCH_SIZE_def)
  note t = batch_failures_are_contained[of fails_full_batch two_batches empty_db, THEN conjunct1]
  have "tbl_documents (ingest_batches fails_full_batch two_batches empty_db) =
          tbl_documents empty_db @ [guide_page2]"
    by (simp add: t f)
  moreover have "log (ingest_batches fails_full_batch two_batches empty_db) =
          log empty_db @ batch_events fails_full_batch two_batches 0
            @ batch_events fails_full_batch two_batches 100"
    by (simp add: t s)
  ultimately show ?thesis
    by (simp add: e empty_db_def)
qed

text \<open>
  Claim C7 as stated fails for per-file failures. In the upload loop nothing catches
  an exception of \<open>process_and_ingest_pdf\<close>: when the store rejects the chunks of
  \<open>guide.pdf\<close>, the page reports the error and \<open>notes.pdf\<close>, which ingests well on its
  own, is never processed.
\<close>

theorem upload_loop_aborts_counterexample:
  "upload_page one_span_splitter fails_guide [guide_upload, notes_upload] empty_db =
     \<lparr>tbl_uploaded_documents = [], next_id = 1, tbl_documents = [],
      log = [St_info_processing ''guide.pdf'', St_error_setup StoreWriteFailure]\<rparr>
   \<and> map row_name (tbl_uploaded_documents
         (upload_page one_span_splitter fails_guide [notes_upload] empty_db)) = [''notes.pdf'']"
  by (simp add: example_defs uploader_defs)

section \<open>The deduplication loop of the script\<close>

text \<open>Of the pages with a given file name, the loop keeps the first one at most.\<close>

lemma dedup_loop_per_name:
  "filter (\<lambda>d. file_name_of d = f) (snd (dedup_loop documents (st, acc))) =
     filter (\<lambda>d. file_name_of d = f) acc @
       (if select_name_eq f st \<noteq> [] then []
        else take 1 (filter (\<lambda>d. file_name_of d = f) documents))"
proof (induction documents arbitrary: st acc)
  case Nil
  then show ?case by simp
next
  case (Cons doc rest)
  show ?case
    by (simp add: Let_def Cons.IH select_name_eq_insert)
qed

lemma dedup_loop_registry_per_name:
  "length (select_name_eq f (fst (dedup_loop documents (st, acc)))) =
     (if select_name_eq f st = [] \<and> f \<in> file_name_of ` set documents then 1
      else length (select_name_eq f st))"
proof (induction documents arbitrary: st acc)
  case Nil
  then show ?case by simp
next
  case (Cons doc rest)
  show ?case
    by (auto simp: Let_def Cons.IH select_name_eq_insert)
qed

lemma dedup_loop_skips_per_name:
  "filter (\<lambda>e. e = Log_skipping_duplicate f) (log (fst (dedup_loop documents (st, acc)))) =
     filter (\<lambda>e. e = Log_skipping_duplicate f) (log st) @
       replicate (length (filter (\<lambda>d. file_name_of d = f) documents)
                  - (if select_name_eq f st = [] \<and> f \<in> file_name_of ` set documents then 1 else 0))
                 (Log_skipping_duplicate f)"
proof (induction documents arbitrary: st acc)
  case Nil
  then show ?case by simp
next
  case (Cons doc rest)
  show ?case
    by (auto simp: Let_def Cons.IH select_name_eq_insert replicate_app_Cons_same filter_empty_conv)
qed

lemma dedup_loop_chunks: "tbl_documents (fst (dedup_loop documents (st, acc))) = tbl_documents st"
  by (induction documents arbitrary: st acc) (simp_all add: Let_def)

lemma split_documents_filter:
  "filter (\<lambda>c. file_name_of c = f) (split_documents split_text documents) =
     split_documents split_text (filter (\<lambda>d. file_name_of d = f) documents)"
  by (induction documents) (auto simp: split_documents_def file_name_of_def filter_empty_conv)

text \<open>The loop keeps one registry row per name at most.\<close>

lemma dedup_loop_distinct_names:
  assumes "distinct (map row_name (tbl_uploaded_documents st))"
  shows "distinct (map row_name (tbl_uploaded_documents (fst (dedup_loop documents (st, acc)))))"
  using assms
proof (induction documents arbitrary: st acc)
  case Nil
  then show ?case by simp
next
  case (Cons doc rest)
  show ?case
  proof (cases "select_name_eq (file_name_of doc) st = []")
    case True
    then have "file_name_of doc \<notin> set (map row_name (tbl_uploaded_documents st))"
      using select_name_eq_empty_iff by blast
    then have "distinct (map row_name (tbl_uploaded_documents
        (insert_uploaded_document (file_name_of doc)
           (metadata_get (metadata doc) ''author'' ''Unknown'') st)))"
      using Cons.prems by simp
    then show ?thesis
      using True by (simp add: Let_def Cons.IH)
  next
    case False
    then show ?thesis
      using Cons.prems by (simp add: Let_def Cons.IH)
  qed
qed

text \<open>
  Claim C10. The script checks and registers once per loaded page. For a PDF whose
  name \<open>f\<close> is not yet registered, with first page \<open>page1\<close> and further pages
  \<open>later_pages\<close> (no earlier document of the run has that name): of the pages named
  \<open>f\<close> only \<open>page1\<close> is kept for processing, the registry gets exactly one row for
  \<open>f\<close>, every later page is logged as a skipped duplicate, the chunks of \<open>f\<close> among
  those to store are the chunks of \<open>page1\<close>, and the chunk table receives the batches
  of the kept pages' chunks that did not fail.
\<close>

theorem only_first_page_is_ingested:
  assumes "select_name_eq f st = []"
      and "file_name_of page1 = f"
      and "\<forall>d \<in> set later_pages. file_name_of d = f"
      and "\<forall>d \<in> set before. file_name_of d \<noteq> f"
      and "dedup_loop (before @ page1 # later_pages @ rest) (st, []) = (st1, processed_docs)"
  shows "filter (\<lambda>d. file_name_of d = f) processed_docs = [page1]
       \<and> length (select_name_eq f st1) = 1
       \<and> length (filter (\<lambda>e. e = Log_skipping_duplicate f) (log st1)) =
           length (filter (\<lambda>e. e = Log_skipping_duplicate f) (log st))
           + length later_pages + length (filter (\<lambda>d. file_name_of d = f) rest)
       \<and> filter (\<lambda>c. file_name_of c = f) (split_documents split_text processed_docs) =
           split_documents split_text [page1]
       \<and> tbl_documents (run_script split_text fails (before @ page1 # later_pages @ rest) st) =
           tbl_documents st @
             concat (filter (\<lambda>b. \<not> fails b) (batches (split_documents split_text processed_docs)))"
proof -
  let ?docs = "before @ page1 # later_pages @ rest"
  let ?named = "\<lambda>d. file_name_of d = f"
  have before: "filter ?named before = []"
    using assms(4) by (simp add: filter_empty_conv)
  have later: "filter ?named later_pages = later_pages"
    using assms(3) by (simp add: filter_id_conv)
  have all: "filter ?named ?docs = page1 # later_pages @ filter ?named rest"
    using assms(2) by (simp add: before later)
  have mem: "f \<in> file_name_of ` set ?docs"
    using assms(2) by auto
  have st1: "st1 = fst (dedup_loop ?docs (st, []))"
    and pd: "processed_docs = snd (dedup_loop ?docs (st, []))"
    using assms(5) by simp_all
  have a: "filter ?named processed_docs = [page1]"
    unfolding pd dedup_loop_per_name all using assms(1) by simp
  have b: "length (select_name_eq f st1) = 1"
    unfolding st1 dedup_loop_registry_per_name using assms(1) mem by simp
  have c: "length (filter (\<lambda>e. e = Log_skipping_duplicate f) (log st1)) =
           length (filter (\<lambda>e. e = Log_skipping_duplicate f) (log st))
           + length later_pages + length (filter ?named rest)"
    unfolding st1 dedup_loop_skips_per_name all using assms(1) mem by simp
  have d: "filter (\<lambda>c. file_name_of c = f) (split_documents split_text processed_docs) =
           split_documents split_text [page1]"
    by (simp add: split_documents_filter a)
  have e: "tbl_documents (run_script split_text fails ?docs st) =
           tbl_documents st @
             concat (filter (\<lambda>b. \<not> fails b) (batches (split_documents split_text processed_docs)))"
  proof -
    have ch: "tbl_documents st1 = tbl_documents st"
      unfolding st1 by (rule dedup_loop_chunks)
    show ?thesis
      using assms(5) by (simp add: run_script_def ingest_batches_eq Let_def ch)
  qed
  show ?thesis using a b c d e by blast
qed

theorem only_first_page_is_ingested_witness:
  "select_name_eq ''guide.pdf'' empty_db = []
   \<and> file_name_of guide_page1 = ''guide.pdf''
   \<and> file_name_of guide_page2 = ''guide.pdf''
   \<and> filter (\<lambda>d. file_name_of d = ''guide.pdf'')
         (snd (dedup_loop [guide_page1, guide_page2] (empty_db, []))) = [guide_page1]
   \<and> length (select_name_eq ''guide.pdf''
         (fst (dedup_loop [guide_page1, guide_page2] (empty_db, [])))) = 1
   \<and> tbl_documents (run_script one_span_splitter never_fails [guide_page1, guide_page2] empty_db) =
       [guide_page1]"
proof -
  have h1: "select_name_eq ''guide.pdf'' empty_db = []"
    by (simp add: empty_db_def select_name_eq_def)
  have h2: "file_name_of guide_page1 = ''guide.pdf''"
    by (simp add: guide_page1_def file_name_of_def metadata_get_def basename_def)
  have h3: "\<forall>d \<in> set [guide_page2]. file_name_of d = ''guide.pdf''"
    by (simp add: guide_page2_def file_name_of_def metadata_get_def basename_def)
  have h4: "\<forall>d \<in> set []. file_name_of d \<noteq> ''guide.pdf''"
    by simp
  have h5: "dedup_loop ([] @ guide_page1 # [guide_page2] @ []) (empty_db, []) =
              (fst (dedup_loop [guide_page1, guide_page2] (empty_db, [])),
               snd (dedup_loop [guide_page1, guide_page2] (empty_db, [])))"
    by simp
  have h3': "file_name_of guide_page2 = ''guide.pdf''"
    using h3 by simp
  have ev: "tbl_documents (run_script one_span_splitter never_fails [guide_page1, guide_page2] empty_db) =
       [guide_page1]"
    by (simp add: example_defs script_defs)
  show ?thesis
    using only_first_page_is_ingested[OF h1 h2 h3 h4 h5, of one_span_splitter never_fails]
      h1 h2 h3' ev
    by blast
qed

section \<open>Where the script departs from the uploader\<close>

text \<open>
  Claim C2 fails in the script. Run on \<open>documents/guide.pdf\<close> with an empty database,
  the script registers the name \<open>guide.pdf\<close> and stores the chunk with the loader's
  path \<open>documents/guide.pdf\<close> as its \<open>source\<close>: the management page's count of the
  chunks whose \<open>source\<close> is the registered name is zero.
\<close>

theorem script_chunk_source_is_directory_path:
  "tbl_documents (run_script one_span_splitter never_fails [guide_page1] empty_db) =
     [\<lparr>page_content = ''Welcome to the guide.'',
       metadata = [(''source'', ''documents/guide.pdf''), (''page'', ''0'')]\<rparr>]
   \<and> map row_name (tbl_uploaded_documents
         (run_script one_span_splitter never_fails [guide_page1] empty_db)) = [''guide.pdf'']
   \<and> chunk_count ''guide.pdf'' (run_script one_span_splitter never_fails [guide_page1] empty_db) = 0"
  by (simp add: example_defs script_defs chunk_count_def source_is_def)

text \<open>
  Claim C3 fails in the script. Its trace on \<open>documents/guide.pdf\<close> has the registry
  insert before the store write; and when the store rejects the batch, the
  registry row stays though no chunk was stored.
\<close>

theorem script_registers_before_storing:
  "log (run_script one_span_splitter never_fails [guide_page1] empty_db) =
     [Registry_insert ''guide.pdf'' ''Unknown'',
      Store_add [\<lparr>page_content = ''Welcome to the guide.'',
                  metadata = [(''source'', ''documents/guide.pdf''), (''page'', ''0'')]\<rparr>],
      Log_ingested_batch 1 1,
      Print_loaded 1 1]
   \<and> run_script one_span_splitter always_fails [guide_page1] empty_db =
     \<lparr>tbl_uploaded_documents = [\<lparr>row_id = 1, row_name = ''guide.pdf'', row_author = ''Unknown''\<rparr>],
      next_id = 2,
      tbl_documents = [],
      log = [Registry_insert ''guide.pdf'' ''Unknown'', Log_failed_batch 1 StoreWriteFailure,
             Print_loaded 1 1]\<rparr>"
  by (simp add: example_defs script_defs)

text \<open>
  Claim C4 fails in the script. For a new file whose only page gives no span, the
  script has inserted the registry row before it splits: the row is there, no chunk
  is stored, and a later run skips the file as a duplicate.
\<close>

theorem script_registers_file_without_text:
  assumes "split_text (page_content doc) = []"
      and "select_name_eq (file_name_of doc) st = []"
  shows "tbl_uploaded_documents (run_script split_text fails [doc] st) =
           tbl_uploaded_documents st @
             [\<lparr>row_id = next_id st, row_name = file_name_of doc,
               row_author = metadata_get (metadata doc) ''author'' ''Unknown''\<rparr>]
       \<and> tbl_documents (run_script split_text fails [doc] st) = tbl_documents st
       \<and> log (run_script split_text fails [doc] st) =
           log st @ [Registry_insert (file_name_of doc) (metadata_get (metadata doc) ''author'' ''Unknown''),
                     Print_loaded 0 1]"
  using assms by (simp add: run_script_def Let_def split_documents_def)

theorem script_registers_file_without_text_witness:
  "one_span_splitter (page_content scan_page) = []
   \<and> select_name_eq (file_name_of scan_page) empty_db = []
   \<and> tbl_uploaded_documents (run_script one_span_splitter never_fails [scan_page] empty_db) =
       [\<lparr>row_id = 1, row_name = ''scan.pdf'', row_author = ''Unknown''\<rparr>]
   \<and> tbl_documents (run_script one_span_splitter never_fails [scan_page] empty_db) = []"
proof -
  have h1: "one_span_splitter (page_content scan_page) = []"
    by (simp add: example_defs)
  have h2: "select_name_eq (file_name_of scan_page) empty_db = []"
    by (simp add: example_defs select_name_eq_def)
  have n: "file_name_of scan_page = ''scan.pdf''"
    by (simp add: example_defs file_name_of_def metadata_get_def basename_def)
  have a: "metadata_get (metadata scan_page) ''author'' ''Unknown'' = ''Unknown''"
    by (simp add: example_defs metadata_get_def)
  show ?thesis
    using script_registers_file_without_text[where split_text = one_span_splitter and doc = scan_page
        and st = empty_db and fails = never_fails, OF h1 h2] h1 h2
    by (simp add: n a) (simp add: empty_db_def)
qed

section \<open>The uploader, case by case\<close>

lemma source_is_update: "source_is n (doc\<lparr>metadata := AList.update ''source'' n (metadata doc)\<rparr>)"
  by (simp add: source_is_def update_conv')

lemma split_documents_source:
  assumes "\<forall>d \<in> set documents. source_is n d" "c \<in> set (split_documents split_text documents)"
  shows "source_is n c"
  using assms by (auto simp: split_documents_def source_is_def)

lemma relinked_chunks_source:
  "c \<in> set (split_documents split_text (relinked_pages file)) \<Longrightarrow> source_is (up_name file) c"
  by (rule split_documents_source[where documents = "relinked_pages file"])
     (auto simp: relinked_pages_def source_is_update)

lemma process_and_ingest_pdf_registered:
  "select_name_eq (up_name file) st \<noteq> [] \<Longrightarrow>
     process_and_ingest_pdf split_text fails file st =
       (Returned, emit (St_warning_skipping_duplicate (up_name file)) st)"
  by (simp add: process_and_ingest_pdf_def)

lemma process_and_ingest_pdf_no_chunks:
  "select_name_eq (up_name file) st = [] \<Longrightarrow>
   split_documents split_text (relinked_pages file) = [] \<Longrightarrow>
     process_and_ingest_pdf split_text fails file st =
       (Returned, emit (St_warning_no_text (up_name file))
                    (emit (St_info_processing (up_name file)) st))"
  by (simp add: process_and_ingest_pdf_def relinked_pages_def Let_def)

lemma process_and_ingest_pdf_store_fails:
  "select_name_eq (up_name file) st = [] \<Longrightarrow>
   split_documents split_text (relinked_pages file) \<noteq> [] \<Longrightarrow>
   fails (split_documents split_text (relinked_pages file)) \<Longrightarrow>
     process_and_ingest_pdf split_text fails file st =
       (Raised StoreWriteFailure, emit (St_info_processing (up_name file)) st)"
  by (simp add: process_and_ingest_pdf_def relinked_pages_def Let_def add_documents_def)


lemma process_and_ingest_pdf_stored:
  "select_name_eq (up_name file) st = [] \<Longrightarrow>
   split_documents split_text (relinked_pages file) \<noteq> [] \<Longrightarrow>
   \<not> fails (split_documents split_text (relinked_pages file)) \<Longrightarrow>
     process_and_ingest_pdf split_text fails file st =
       (Returned,
        st\<lparr>tbl_uploaded_documents := tbl_uploaded_documents st @
              [\<lparr>row_id = next_id st, row_name = up_name file, row_author = upload_author file\<rparr>],
           next_id := Suc (next_id st),
           tbl_documents := tbl_documents st @ split_documents split_text (relinked_pages file),
           log := log st @
             [St_info_processing (up_name file),
              Store_add (split_documents split_text (relinked_pages file)),
              St_info_ingested (length (split_documents split_text (relinked_pages file))) (up_name file),
              Registry_insert (up_name file) (upload_author file),
              St_success_processed (up_name file)]\<rparr>)"
  by (simp add: process_and_ingest_pdf_def relinked_pages_def upload_author_def Let_def
      add_documents_def emit_def insert_uploaded_document_def)

text \<open>The uploader links every chunk it stores to the registry key.\<close>

lemma process_and_ingest_pdf_chunks_linked:
  assumes "tbl_documents (snd (process_and_ingest_pdf split_text fails file st)) = tbl_documents st @ new"
      and "c \<in> set new"
  shows "source_is (up_name file) c"
proof -
  let ?docs = "split_documents split_text (relinked_pages file)"
  consider (registered) "select_name_eq (up_name file) st \<noteq> []"
    | (no_chunks) "select_name_eq (up_name file) st = []" "?docs = []"
    | (fails) "select_name_eq (up_name file) st = []" "?docs \<noteq> []" "fails ?docs"
    | (stored) "select_name_eq (up_name file) st = []" "?docs \<noteq> []" "\<not> fails ?docs"
    by blast
  then show ?thesis
  proof cases
    case registered
    then have "new = []"
      using assms(1) by (simp add: process_and_ingest_pdf_registered)
    then show ?thesis using assms(2) by simp
  next
    case no_chunks
    then have "new = []"
      using assms(1) by (simp add: process_and_ingest_pdf_no_chunks)
    then show ?thesis using assms(2) by simp
  next
    case fails
    then have "new = []"
      using assms(1) by (simp add: process_and_ingest_pdf_store_fails)
    then show ?thesis using assms(2) by simp
  next
    case stored
    then have "new = ?docs"
      using assms(1) by (simp add: process_and_ingest_pdf_stored)
    then show ?thesis using assms(2) by (simp add: relinked_chunks_source)
  qed
qed

text \<open>The uploader writes the registry row only after a non-empty store write.\<close>

lemma process_and_ingest_pdf_registers_after_store:
  assumes "log (snd (process_and_ingest_pdf split_text fails file st)) = log st @ evs"
      and "Registry_insert n a \<in> set evs"
  shows "\<exists>docs. docs \<noteq> [] \<and>
           evs = [St_info_processing (up_name file), Store_add docs,
                  St_info_ingested (length docs) (up_name file),
                  Registry_insert n a, St_success_processed (up_name file)]"
proof -
  let ?docs = "split_documents split_text (relinked_pages file)"
  consider (registered) "select_name_eq (up_name file) st \<noteq> []"
    | (no_chunks) "select_name_eq (up_name file) st = []" "?docs = []"
    | (fails) "select_name_eq (up_name file) st = []" "?docs \<noteq> []" "fails ?docs"
    | (stored) "select_name_eq (up_name file) st = []" "?docs \<noteq> []" "\<not> fails ?docs"
    by blast
  then show ?thesis
  proof cases
    case registered
    then have "evs = [St_warning_skipping_duplicate (up_name file)]"
      using assms(1) by (simp add: process_and_ingest_pdf_registered)
    then show ?thesis using assms(2) by simp
  next
    case no_chunks
    then have "evs = [St_info_processing (up_name file), St_warning_no_text (up_name file)]"
      using assms(1) by (simp add: process_and_ingest_pdf_no_chunks)
    then show ?thesis using assms(2) by simp
  next
    case fails
    then have "evs = [St_info_processing (up_name file)]"
      using assms(1) by (simp add: process_and_ingest_pdf_store_fails)
    then show ?thesis using assms(2) by simp
  next
    case stored
    then have e: "evs = [St_info_processing (up_name file), Store_add ?docs,
                  St_info_ingested (length ?docs) (up_name file),
                  Registry_insert (up_name file) (upload_author file),
                  St_success_processed (up_name file)]"
      using assms(1) by (simp add: process_and_ingest_pdf_stored)
    then have "n = up_name file" "a = upload_author file"
      using assms(2) by simp_all
    with e stored(2) show ?thesis by blast
  qed
qed

text \<open>The uploader leaves the registry alone when a file gives no chunk.\<close>

lemma process_and_ingest_pdf_no_text_registry:
  assumes "split_documents split_text (relinked_pages file) = []"
  shows "tbl_uploaded_documents (snd (process_and_ingest_pdf split_text fails file st)) =
           tbl_uploaded_documents st"
proof (cases "select_name_eq (up_name file) st = []")
  case True
  then show ?thesis using assms by (simp add: process_and_ingest_pdf_no_chunks)
next
  case False
  then show ?thesis by (simp add: process_and_ingest_pdf_registered)
qed

text \<open>The uploader keeps one registry row per name at most.\<close>

lemma process_and_ingest_pdf_distinct_names:
  assumes "distinct (map row_name (tbl_uploaded_documents st))"
  shows "distinct (map row_name (tbl_uploaded_documents
           (snd (process_and_ingest_pdf split_text fails file st))))"
proof -
  let ?docs = "split_documents split_text (relinked_pages file)"
  consider (registered) "select_name_eq (up_name file) st \<noteq> []"
    | (no_chunks) "select_name_eq (up_name file) st = []" "?docs = []"
    | (fails) "select_name_eq (up_name file) st = []" "?docs \<noteq> []" "fails ?docs"
    | (stored) "select_name_eq (up_name file) st = []" "?docs \<noteq> []" "\<not> fails ?docs"
    by blast
  then show ?thesis
  proof cases
    case registered
    then show ?thesis using assms by (simp add: process_and_ingest_pdf_registered)
  next
    case no_chunks
    then show ?thesis using assms by (simp add: process_and_ingest_pdf_no_chunks)
  next
    case fails
    then show ?thesis using assms by (simp add: process_and_ingest_pdf_store_fails)
  next
    case stored
    moreover have "up_name file \<notin> set (map row_name (tbl_uploaded_documents st))"
      using stored(1) select_name_eq_empty_iff by blast
    ultimately show ?thesis using assms by (simp add: process_and_ingest_pdf_stored)
  qed
qed

section \<open>Cascading delete\<close>

lemma delete_selected_loop_chunks:
  "tbl_documents (delete_selected_loop rows st) =
     filter (\<lambda>c. \<forall>row \<in> set rows. \<not> source_is (row_name row) c) (tbl_documents st)"
  by (induction rows arbitrary: st)
     (auto simp: Let_def delete_chunks_where_source_def delete_uploaded_document_def emit_def
           intro: filter_cong)

lemma delete_selected_loop_registry:
  "tbl_uploaded_documents (delete_selected_loop rows st) =
     filter (\<lambda>r. row_id r \<notin> row_id ` set rows) (tbl_uploaded_documents st)"
  by (induction rows arbitrary: st)
     (auto simp: Let_def delete_chunks_where_source_def delete_uploaded_document_def emit_def
           intro: filter_cong)

lemma delete_selected_loop_log:
  "log (delete_selected_loop rows st) = log st @ concat (map delete_events rows)"
  by (induction rows arbitrary: st)
     (simp_all add: Let_def delete_chunks_where_source_def delete_uploaded_document_def emit_def
           delete_events_def)

text \<open>
  Claim C5. Deleting the selected rows on the management page: for every selected
  row the chunks whose \<open>source\<close> is the row's name are deleted before the registry
  row (the trace has, row by row, the chunk delete and then the registry delete),
  and afterwards the chunk count and the chunks filtered by that name are empty and
  no registry row has the row's id.
\<close>

theorem delete_cascades_to_chunks:
  assumes "row \<in> set selected_rows"
  shows "chunk_count (row_name row) (delete_selected_rows selected_rows st) = 0
       \<and> filter (source_is (row_name row)) (tbl_documents (delete_selected_rows selected_rows st)) = []
       \<and> filter (\<lambda>r. row_id r = row_id row)
           (tbl_uploaded_documents (delete_selected_rows selected_rows st)) = []
       \<and> log (delete_selected_rows selected_rows st) =
           log st @ concat (map delete_events selected_rows) @ [St_success_deleted]"
proof -
  have ne: "selected_rows \<noteq> []"
    using assms by auto
  have c: "filter (source_is (row_name row)) (tbl_documents (delete_selected_loop selected_rows st)) = []"
    using assms by (auto simp: delete_selected_loop_chunks filter_empty_conv)
  have r: "filter (\<lambda>r. row_id r = row_id row)
             (tbl_uploaded_documents (delete_selected_loop selected_rows st)) = []"
    using assms by (auto simp: delete_selected_loop_registry filter_empty_conv)
  show ?thesis
    using ne c r by (simp add: delete_selected_rows_def chunk_count_def delete_selected_loop_log)
qed

theorem delete_cascades_to_chunks_witness:
  "chunk_count ''guide.pdf'' guide_db = 1
   \<and> chunk_count ''guide.pdf''
       (delete_selected_rows [\<lparr>row_id = 1, row_name = ''guide.pdf'', row_author = ''Unknown''\<rparr>] guide_db) = 0
   \<and> tbl_uploaded_documents
       (delete_selected_rows [\<lparr>row_id = 1, row_name = ''guide.pdf'', row_author = ''Unknown''\<rparr>] guide_db) = []
   \<and> log (delete_selected_rows [\<lparr>row_id = 1, row_name = ''guide.pdf'', row_author = ''Unknown''\<rparr>] guide_db) =
       [St_info_deleting_chunks ''guide.pdf'', Store_delete_where ''guide.pdf'',
        St_info_deleting_record ''guide.pdf'', Registry_delete 1, St_success_deleted]"
proof -
  let ?row = "\<lparr>row_id = 1, row_name = ''guide.pdf'', row_author = ''Unknown''\<rparr>"
  have h: "?row \<in> set [?row]"
    by simp
  have before: "chunk_count ''guide.pdf'' guide_db = 1"
    by (simp add: guide_db_def chunk_count_def source_is_def)
  have reg: "tbl_uploaded_documents (delete_selected_rows [?row] guide_db) = []"
    by (simp add: guide_db_def delete_selected_rows_def Let_def delete_chunks_where_source_def
        delete_uploaded_document_def emit_def)
  show ?thesis
    using delete_cascades_to_chunks[OF h, of guide_db] before reg
    by (simp add: delete_events_def guide_db_def)
qed

section \<open>Router gating\<close>

text \<open>What the code gives the SQL agent: the one table, and the prompt that names it.\<close>

lemma sql_agent_tables:
  "initialize_system connects secrets = Inr (doc_executor, Some (Sql_agent uri tables), calls) \<Longrightarrow>
     tables = [''completions''] \<and> uri = db_uri_of secrets"
  by (auto simp: initialize_system_def Let_def split: sum.splits if_splits)

text \<open>
  Claim C6. When one of the four database secrets is missing and the system
  initialises: the SQL agent is absent, no call to the structured store was made,
  the selector offers the documents only, and no chat turn, whatever the data
  source and the question, invokes the SQL agent.
\<close>

theorem router_gating:
  assumes "\<exists>k \<in> set db_secret_keys. map_of secrets k = None"
      and "initialize_system connects secrets = Inr (doc_executor, sql_executor, calls)"
  shows "sql_executor = None \<and> calls = []
       \<and> radio_options sql_executor = [''Internal Documents (PDFs)'']
       \<and> ''Case Data (Completions)'' \<notin> set (radio_options sql_executor)
       \<and> (\<forall>data_source user_input q.
             Sql_executor_invoke q \<notin>
               set (fst (chat_turn doc_answer sql_answer doc_executor sql_executor
                          data_source user_input)))"
proof -
  have n: "\<not> list_all (\<lambda>k. map_of secrets k \<noteq> None) db_secret_keys"
    using assms(1) by (auto simp: list_all_iff)
  have s: "sql_executor = None" and c: "calls = []"
    using assms(2) n by (auto simp: initialize_system_def split: sum.splits)
  show ?thesis
    by (auto simp: s c radio_options_def chat_turn_def)
qed

theorem router_gating_witness:
  "map_of partial_secrets ''DB_PASSWORD'' = None
   \<and> initialize_system (\<lambda>uri. True) partial_secrets = Inr (Some Doc_agent, None, [])
   \<and> radio_options None = [''Internal Documents (PDFs)'']
   \<and> chat_turn (\<lambda>q. ''answer'') (\<lambda>q. ''rows'') (Some Doc_agent) None
        ''Case Data (Completions)'' ''How many cases completed?'' =
       ([], [(User, ''How many cases completed?'')])"
proof -
  have h1: "\<exists>k \<in> set db_secret_keys. map_of partial_secrets k = None"
    by (simp add: db_secret_keys_def partial_secrets_def)
  have h2: "initialize_system (\<lambda>uri. True) partial_secrets = Inr (Some Doc_agent, None, [])"
    by (simp add: initialize_system_def secret_def partial_secrets_def db_secret_keys_def)
  have p: "map_of partial_secrets ''DB_PASSWORD'' = None"
    by (simp add: partial_secrets_def)
  have t: "chat_turn (\<lambda>q. ''answer'') (\<lambda>q. ''rows'') (Some Doc_agent) None
        ''Case Data (Completions)'' ''How many cases completed?'' =
       ([], [(User, ''How many cases completed?'')])"
    by (simp add: chat_turn_def)
  show ?thesis
    using router_gating[OF h1 h2] p h2 t by blast
qed

section \<open>Ingesting the same input twice\<close>

lemma dedup_loop_registered:
  assumes "\<forall>doc \<in> set documents. select_name_eq (file_name_of doc) st \<noteq> []"
  shows "dedup_loop documents (st, acc) =
           (st\<lparr>log := log st @ map (\<lambda>doc. Log_skipping_duplicate (file_name_of doc)) documents\<rparr>, acc)"
  using assms
proof (induction documents arbitrary: st)
  case Nil
  then show ?case by simp
next
  case (Cons doc rest)
  let ?st = "emit (Log_skipping_duplicate (file_name_of doc)) st"
  have "dedup_loop (doc # rest) (st, acc) = dedup_loop rest (?st, acc)"
    using Cons.prems by (simp add: Let_def)
  also have "\<dots> = (?st\<lparr>log := log ?st @ map (\<lambda>doc. Log_skipping_duplicate (file_name_of doc)) rest\<rparr>, acc)"
    using Cons.prems by (intro Cons.IH) simp_all
  finally show ?case by (simp add: emit_def)
qed

lemma dedup_loop_registers_all:
  assumes "doc \<in> set documents"
  shows "select_name_eq (file_name_of doc) (fst (dedup_loop documents (st, acc))) \<noteq> []"
proof -
  have "length (select_name_eq (file_name_of doc) (fst (dedup_loop documents (st, acc)))) \<noteq> 0"
    unfolding dedup_loop_registry_per_name using assms by auto
  then show ?thesis by simp
qed

lemma run_script_tables:
  "tbl_uploaded_documents (run_script split_text fails documents st) =
     tbl_uploaded_documents (fst (dedup_loop documents (st, [])))"
  by (simp add: run_script_def ingest_batches_eq Let_def split: prod.splits)

lemma select_name_eq_run_script:
  "select_name_eq n (run_script split_text fails documents st) =
     select_name_eq n (fst (dedup_loop documents (st, [])))"
  by (simp add: select_name_eq_def run_script_tables)

text \<open>Running the script a second time over the same directory changes neither table.\<close>

lemma run_script_twice:
  "tbl_uploaded_documents (run_script split_text' fails' documents (run_script split_text fails documents st)) =
     tbl_uploaded_documents (run_script split_text fails documents st)
   \<and> tbl_documents (run_script split_text' fails' documents (run_script split_text fails documents st)) =
     tbl_documents (run_script split_text fails documents st)"
proof -
  let ?st1 = "run_script split_text fails documents st"
  have "\<forall>doc \<in> set documents. select_name_eq (file_name_of doc) ?st1 \<noteq> []"
    by (simp add: select_name_eq_run_script dedup_loop_registers_all)
  then have "dedup_loop documents (?st1, []) =
      (?st1\<lparr>log := log ?st1 @ map (\<lambda>doc. Log_skipping_duplicate (file_name_of doc)) documents\<rparr>, [])"
    by (rule dedup_loop_registered)
  then show ?thesis
    by (simp add: run_script_def[of split_text' fails' documents ?st1])
qed

text \<open>Uploading a file again after it was registered changes neither table.\<close>

lemma upload_twice:
  assumes "distinct (map row_name (tbl_uploaded_documents st))"
      and "process_and_ingest_pdf split_text fails file st = (out1, st1)"
      and "select_name_eq (up_name file) st1 \<noteq> []"
      and "up_name file' = up_name file"
  shows "process_and_ingest_pdf split_text' fails' file' st1 =
           (Returned, emit (St_warning_skipping_duplicate (up_name file)) st1)
       \<and> length (select_name_eq (up_name file) st1) = 1"
proof -
  have "distinct (map row_name (tbl_uploaded_documents st1))"
    using process_and_ingest_pdf_distinct_names[OF assms(1), of split_text fails "file"] assms(2)
    by simp
  then have "length (select_name_eq (up_name file) st1) = 1"
    using assms(3) by (rule distinct_names_select_length)
  moreover have "process_and_ingest_pdf split_text' fails' file' st1 =
           (Returned, emit (St_warning_skipping_duplicate (up_name file)) st1)"
    using process_and_ingest_pdf_registered[of "file'" st1 split_text' fails'] assms(3,4) by simp
  ultimately show ?thesis by simp
qed

end
